theory Spec2Isabelle
  imports Main "HOL-Library.Sublist"
begin

section \<open>Values, failures and the interpreter state\<close>

text \<open>
  The module \<^verbatim>\<open>asyncio_helpers\<close> coordinates asyncio event loops with ordinary
  threads. Its four functions (\<^verbatim>\<open>ensure_event_loop\<close>, \<^verbatim>\<open>with_loop\<close>,
  \<^verbatim>\<open>cancellable\<close>, \<^verbatim>\<open>sync\<close>) are embedded here over an explicit state: the
  loop objects, the loop bound to each thread, and the \<^verbatim>\<open>Event\<close> objects with the
  attributes the module attaches to them.
\<close>

datatype exn_class =
    RuntimeError | NotImplementedError | TypeError | ValueError | AttributeError
  | SystemExit | KeyboardInterrupt

datatype failure = Failure exn_class string

fun exn_str :: "failure \<Rightarrow> string" where
  "exn_str (Failure c m) = m"

text \<open>\<^verbatim>\<open>except RuntimeError\<close> also catches the subclasses of \<^verbatim>\<open>RuntimeError\<close>.\<close>

fun isinstance_RuntimeError :: "failure \<Rightarrow> bool" where
  "isinstance_RuntimeError (Failure c m) = (c = RuntimeError \<or> c = NotImplementedError)"

text \<open>
  \<^verbatim>\<open>except Exception\<close> catches every class but those derived from
  \<^verbatim>\<open>BaseException\<close> alone.
\<close>

fun isinstance_Exception :: "failure \<Rightarrow> bool" where
  "isinstance_Exception (Failure c m) = (c \<noteq> SystemExit \<and> c \<noteq> KeyboardInterrupt)"

text \<open>A name as Python's messages print it, between apostrophes.\<close>

definition quoted :: "string \<Rightarrow> string" where
  "quoted s = CHR 0x27 # s @ [CHR 0x27]"

definition no_attribute :: "string \<Rightarrow> string \<Rightarrow> failure" where
  "no_attribute obj name =
     Failure AttributeError (obj @ '' has no attribute '' @ quoted name)"

datatype pyval = PNone | PBool bool | PInt int | PStr string

type_synonym thread = nat
type_synonym loop = nat
type_synonym ref = nat
type_synonym task = nat

datatype loop_kind = SelectorEventLoop | ProactorEventLoop

text \<open>A callback queued on a loop by \<^verbatim>\<open>call_soon_threadsafe\<close>.\<close>

datatype callback = Event_set ref | Cancel_sweep

record loop_obj =
  kind :: loop_kind
  is_running :: bool
  is_closed :: bool
  ready :: "callback list"

text \<open>
  An \<^verbatim>\<open>Event\<close> object (\<^verbatim>\<open>threading.Event\<close> or \<^verbatim>\<open>asyncio.Event\<close>) with the
  attributes the module sets on it. An attribute that was never assigned is \<open>None\<close>;
  \<open>error_attr = Some None\<close> is the attribute holding Python's \<^verbatim>\<open>None\<close>.
\<close>

record event_obj =
  flag :: bool
  loop_attr :: "loop option"
  result_attr :: "pyval option"
  error_attr :: "failure option option"

text \<open>
  The order of the accesses to events and loops, recorded as they happen, with the
  values written.
\<close>

datatype action =
    Created ref | Cleared ref | Attached ref loop | Wrote_result ref pyval
  | Wrote_error ref "failure option" | Flag_set ref | Ran loop | Closed loop
  | Scheduled loop callback | Executor_called

text \<open>
  The state of the process. \<open>has_task_classmethods\<close> says whether
  \<^verbatim>\<open>Task.current_task\<close> and \<^verbatim>\<open>Task.all_tasks\<close> exist, which is so up to Python
  3.8. \<open>policy_fault\<close> gives, for a thread, the exception that the installed event
  loop policy raises when it is asked for the loop of that thread; it is \<open>None\<close>
  everywhere for the default policy of \<^verbatim>\<open>asyncio\<close>.
\<close>

record world =
  system :: string
  default_kind :: loop_kind
  has_task_classmethods :: bool
  policy_fault :: "thread \<Rightarrow> failure option"
  thread_name :: "thread \<Rightarrow> string"
  loops :: "loop \<Rightarrow> loop_obj"
  next_loop :: loop
  bound :: "thread \<Rightarrow> loop option"
  events :: "ref \<Rightarrow> event_obj"
  next_ref :: ref
  next_thread :: thread
  cancel_requested :: "task list"
  trace :: "action list"

section \<open>The platform loop provider\<close>

text \<open>
  \<^verbatim>\<open>asyncio\<close> is not part of the module. Its operations are modelled as the module
  uses them. \<^verbatim>\<open>new_event_loop\<close> builds a loop of the platform's default class and
  \<^verbatim>\<open>set_event_loop\<close> binds a loop to the calling thread. \<^verbatim>\<open>get_event_loop\<close>
  returns the loop that is running in the thread, if there is one (a loop runs in the
  thread it is bound to); otherwise it asks the policy, which returns the bound loop or
  raises \<^verbatim>\<open>RuntimeError("There is no current event loop in thread 'name'.")\<close>. (In the
  main thread the default policy itself creates and binds a default loop instead of
  raising, which is what \<open>ensure_event_loop\<close> below does with the error, so the two
  are not told apart.)
\<close>

definition new_event_loop :: "world \<Rightarrow> loop \<times> world" where
  "new_event_loop w =
     (next_loop w,
      w\<lparr>loops := (loops w)(next_loop w :=
            \<lparr>kind = default_kind w, is_running = False, is_closed = False, ready = []\<rparr>),
        next_loop := Suc (next_loop w)\<rparr>)"

definition set_event_loop :: "thread \<Rightarrow> loop \<Rightarrow> world \<Rightarrow> world" where
  "set_event_loop t l w = w\<lparr>bound := (bound w)(t := Some l)\<rparr>"

definition no_loop_msg :: "string \<Rightarrow> string" where
  "no_loop_msg name = ''There is no current event loop in thread '' @ quoted name @ ''.''"

definition running_loop :: "thread \<Rightarrow> world \<Rightarrow> loop option" where
  "running_loop t w =
     (case bound w t of
        None \<Rightarrow> None
      | Some l \<Rightarrow> if is_running (loops w l) then Some l else None)"

definition get_event_loop :: "thread \<Rightarrow> world \<Rightarrow> failure + loop" where
  "get_event_loop t w =
     (case running_loop t w of
        Some l \<Rightarrow> Inr l
      | None \<Rightarrow>
          (case policy_fault w t of
             Some e \<Rightarrow> Inl e
           | None \<Rightarrow>
               (case bound w t of
                  Some l \<Rightarrow> Inr l
                | None \<Rightarrow> Inl (Failure RuntimeError (no_loop_msg (thread_name w t))))))"

text \<open>
  \<^verbatim>\<open>loop.run_until_complete(coro)\<close> refuses a closed loop and a loop that is already
  running; otherwise it returns the result of the coroutine or raises its failure. A
  coroutine object is represented by the outcome of running it to completion.
\<close>

datatype outcome = Returns pyval | Raises failure

definition run_until_complete :: "loop \<Rightarrow> outcome \<Rightarrow> world \<Rightarrow> outcome \<times> world" where
  "run_until_complete l coro w =
     (if is_closed (loops w l) then (Raises (Failure RuntimeError ''Event loop is closed''), w)
      else if is_running (loops w l) then
        (Raises (Failure RuntimeError ''This event loop is already running''), w)
      else (coro, w\<lparr>trace := trace w @ [Ran l]\<rparr>))"

text \<open>\<^verbatim>\<open>loop.close()\<close> refuses a running loop; closing a closed loop does nothing.\<close>

definition loop_close :: "loop \<Rightarrow> world \<Rightarrow> (failure + unit) \<times> world" where
  "loop_close l w =
     (if is_running (loops w l) then
        (Inl (Failure RuntimeError ''Cannot close a running event loop''), w)
      else if is_closed (loops w l) then (Inr (), w)
      else
        (Inr (),
         w\<lparr>loops := (loops w)(l := (loops w l)\<lparr>is_closed := True\<rparr>),
           trace := trace w @ [Closed l]\<rparr>))"

text \<open>\<^verbatim>\<open>loop.call_soon_threadsafe(callback)\<close> refuses a closed loop and queues nothing then.\<close>

definition call_soon_threadsafe :: "loop \<Rightarrow> callback \<Rightarrow> world \<Rightarrow> (failure + unit) \<times> world" where
  "call_soon_threadsafe l cb w =
     (if is_closed (loops w l) then (Inl (Failure RuntimeError ''Event loop is closed''), w)
      else
        (Inr (),
         w\<lparr>loops := (loops w)(l := (loops w l)\<lparr>ready := ready (loops w l) @ [cb]\<rparr>),
           trace := trace w @ [Scheduled l cb]\<rparr>))"

text \<open>The loop \<open>l\<close> takes the callback \<open>cb\<close> off its queue.\<close>

definition dequeue :: "loop \<Rightarrow> callback \<Rightarrow> world \<Rightarrow> world" where
  "dequeue l cb w =
     w\<lparr>loops := (loops w)(l := (loops w l)\<lparr>ready := remove1 cb (ready (loops w l))\<rparr>)\<rparr>"

text \<open>A thread that starts has no loop bound to it.\<close>

definition thread_start :: "world \<Rightarrow> thread \<times> world" where
  "thread_start w =
     (next_thread w,
      w\<lparr>bound := (bound w)(next_thread w := None), next_thread := Suc (next_thread w)\<rparr>)"

section \<open>Events\<close>

text \<open>\<^verbatim>\<open>threading.Event()\<close> and \<^verbatim>\<open>asyncio.Event()\<close>: a new object, flag unset.\<close>

definition new_event :: "world \<Rightarrow> ref \<times> world" where
  "new_event w =
     (next_ref w,
      w\<lparr>events := (events w)(next_ref w :=
            \<lparr>flag = False, loop_attr = None, result_attr = None, error_attr = None\<rparr>),
        next_ref := Suc (next_ref w),
        trace := trace w @ [Created (next_ref w)]\<rparr>)"

definition event_clear :: "ref \<Rightarrow> world \<Rightarrow> world" where
  "event_clear r w =
     w\<lparr>events := (events w)(r := (events w r)\<lparr>flag := False\<rparr>),
       trace := trace w @ [Cleared r]\<rparr>"

definition event_set :: "ref \<Rightarrow> world \<Rightarrow> world" where
  "event_set r w =
     w\<lparr>events := (events w)(r := (events w r)\<lparr>flag := True\<rparr>),
       trace := trace w @ [Flag_set r]\<rparr>"

definition attach_loop :: "ref \<Rightarrow> loop \<Rightarrow> world \<Rightarrow> world" where
  "attach_loop r l w =
     w\<lparr>events := (events w)(r := (events w r)\<lparr>loop_attr := Some l\<rparr>),
       trace := trace w @ [Attached r l]\<rparr>"

definition set_result :: "ref \<Rightarrow> pyval \<Rightarrow> world \<Rightarrow> world" where
  "set_result r v w =
     w\<lparr>events := (events w)(r := (events w r)\<lparr>result_attr := Some v\<rparr>),
       trace := trace w @ [Wrote_result r v]\<rparr>"

definition set_error :: "ref \<Rightarrow> failure option \<Rightarrow> world \<Rightarrow> world" where
  "set_error r e w =
     w\<lparr>events := (events w)(r := (events w r)\<lparr>error_attr := Some e\<rparr>),
       trace := trace w @ [Wrote_error r e]\<rparr>"

section \<open>\<^verbatim>\<open>new_file_event_loop\<close> and \<^verbatim>\<open>ensure_event_loop\<close>\<close>

text \<open>\<^verbatim>\<open>return asyncio.new_event_loop()\<close>\<close>

definition new_file_event_loop :: "world \<Rightarrow> loop \<times> world" where
  "new_file_event_loop w = new_event_loop w"

text \<open>Python's \<^verbatim>\<open>needle in haystack\<close> on strings.\<close>

fun str_contains :: "string \<Rightarrow> string \<Rightarrow> bool" where
  "str_contains n [] = (n = [])"
| "str_contains n (c # cs) = (prefix n (c # cs) \<or> str_contains n cs)"

text \<open>
  \<open>ensure_event_loop\<close> in thread \<open>t\<close>: a \<^verbatim>\<open>RuntimeError\<close> of
  \<^verbatim>\<open>asyncio.get_event_loop()\<close> whose text contains the marker makes a loop and binds
  it, any other \<^verbatim>\<open>RuntimeError\<close> is raised again, and an exception of another class
  is not caught at all.
\<close>

definition ensure_event_loop :: "thread \<Rightarrow> world \<Rightarrow> (failure + loop) \<times> world" where
  "ensure_event_loop t w =
     (case get_event_loop t w of
        Inr l \<Rightarrow> (Inr l, w)
      | Inl e \<Rightarrow>
          if isinstance_RuntimeError e then
            if str_contains ''There is no current event loop'' (exn_str e) then
              (case new_file_event_loop w of
                 (l, w1) \<Rightarrow> (Inr l, set_event_loop t l w1))
            else (Inl e, w)
          else (Inl e, w))"

section \<open>\<^verbatim>\<open>with_loop\<close>\<close>

text \<open>
  A coroutine function takes the positional and the keyword arguments and either raises
  when it is called (\<open>Inl\<close>, as a call with the wrong arguments does) or returns the
  coroutine object.
\<close>

type_synonym kwargs = "(string \<times> pyval) list"
type_synonym corofun = "pyval list \<Rightarrow> kwargs \<Rightarrow> failure + outcome"

text \<open>What a caller of a wrapper sees; \<open>Blocked\<close> is a call that never returns.\<close>

datatype observed = Returned pyval | Raised failure | Blocked

text \<open>
  The decision of \<^verbatim>\<open>wrapped\<close> between the caller's loop and a background thread.
  The second test is written \<^verbatim>\<open>all([platform.system() == 'Windows', not
  isinstance(loop, asyncio.ProactorEventLoop)])\<close>: the list is built before \<^verbatim>\<open>all\<close>
  sees it, and \<^verbatim>\<open>asyncio\<close> exports \<^verbatim>\<open>ProactorEventLoop\<close> on Windows only, so
  elsewhere the attribute lookup raises.
\<close>

definition thread_required :: "loop \<Rightarrow> world \<Rightarrow> failure + bool" where
  "thread_required l w =
     (if is_running (loops w l) then Inr True
      else if system w \<noteq> ''Windows'' then
        Inl (no_attribute (''module '' @ quoted ''asyncio'') ''ProactorEventLoop'')
      else if kind (loops w l) \<noteq> ProactorEventLoop then Inr True
      else Inr False)"

text \<open>
  \<^verbatim>\<open>_run(generator)\<close>, the body of the background thread \<open>t\<close>.
  \<^verbatim>\<open>ensure_event_loop()\<close> is called before the \<^verbatim>\<open>try\<close>. An exception that
  \<^verbatim>\<open>except Exception\<close> does not catch, or one raised by \<^verbatim>\<open>loop.close()\<close> in the
  \<^verbatim>\<open>finally\<close> clause, ends the thread before \<^verbatim>\<open>finished.set()\<close>.
\<close>

definition with_loop_run :: "ref \<Rightarrow> outcome \<Rightarrow> thread \<Rightarrow> world \<Rightarrow> world" where
  "with_loop_run finished generator t w =
     (case ensure_event_loop t w of
        (Inl e, w1) \<Rightarrow> w1
      | (Inr l, w1) \<Rightarrow>
          (case run_until_complete l generator w1 of
             (Raises e, w2) \<Rightarrow>
               if isinstance_Exception e then
                 (case loop_close l (set_error finished (Some e) (set_result finished PNone w2)) of
                    (Inl e', w3) \<Rightarrow> w3
                  | (Inr u, w3) \<Rightarrow> event_set finished w3)
               else snd (loop_close l w2)
           | (Returns result, w2) \<Rightarrow>
               (case loop_close l (set_error finished None (set_result finished result w2)) of
                  (Inl e', w3) \<Rightarrow> w3
                | (Inr u, w3) \<Rightarrow> event_set finished w3)))"

text \<open>
  The caller after \<^verbatim>\<open>finished.wait()\<close>. The event is local to the call and only
  \<open>with_loop_run\<close> sets it, so a thread that ended without setting it leaves the
  caller waiting.
\<close>

definition with_loop_join :: "ref \<Rightarrow> world \<Rightarrow> observed" where
  "with_loop_join finished w =
     (if flag (events w finished) then
        (case error_attr (events w finished) of
           None \<Rightarrow> Raised (no_attribute (quoted ''Event'' @ '' object'') ''error'')
         | Some (Some e) \<Rightarrow> Raised e
         | Some None \<Rightarrow>
             (case result_attr (events w finished) of
                None \<Rightarrow> Raised (no_attribute (quoted ''Event'' @ '' object'') ''result'')
              | Some v \<Rightarrow> Returned v))
      else Blocked)"

text \<open>
  \<^verbatim>\<open>wrapped(*args, **kwargs)\<close> called in thread \<open>t\<close>. In the background branch the
  coroutine is made by \<^verbatim>\<open>func(*args, **kwargs)\<close> in the caller, before the thread
  starts; the direct branch calls \<^verbatim>\<open>func(**kwargs)\<close>.
\<close>

definition with_loop_wrapped ::
  "corofun \<Rightarrow> pyval list \<Rightarrow> kwargs \<Rightarrow> thread \<Rightarrow> world \<Rightarrow> observed \<times> world" where
  "with_loop_wrapped func args kw t w =
     (case ensure_event_loop t w of
        (Inl e, w1) \<Rightarrow> (Raised e, w1)
      | (Inr l, w1) \<Rightarrow>
          (case thread_required l w1 of
             Inl e \<Rightarrow> (Raised e, w1)
           | Inr required \<Rightarrow>
               if required then
                 (case new_event w1 of
                    (finished, w2) \<Rightarrow>
                      (case func args kw of
                         Inl e \<Rightarrow> (Raised e, w2)
                       | Inr generator \<Rightarrow>
                           (case thread_start w2 of
                              (t', w3) \<Rightarrow>
                                (let w4 = with_loop_run finished generator t' w3
                                 in (with_loop_join finished w4, w4)))))
               else
                 (case func [] kw of
                    Inl e \<Rightarrow> (Raised e, w1)
                  | Inr coro \<Rightarrow>
                      (case run_until_complete l coro w1 of
                         (Returns v, w2) \<Rightarrow> (Returned v, w2)
                       | (Raises e, w2) \<Rightarrow> (Raised e, w2)))))"

text \<open>Awaiting \<^verbatim>\<open>f(*args, **kwargs)\<close> directly.\<close>

definition awaited :: "corofun \<Rightarrow> pyval list \<Rightarrow> kwargs \<Rightarrow> outcome" where
  "awaited f args kw = (case f args kw of Inl e \<Rightarrow> Raises e | Inr coro \<Rightarrow> coro)"

text \<open>\<^verbatim>\<open>async def foo(a_): return a_\<close>, the function of the module's test.\<close>

fun identity :: corofun where
  "identity [x] [] = Inr (Returns x)"
| "identity [] [(k, x)] =
     (if k = ''a_'' then Inr (Returns x)
      else Inl (Failure TypeError (''foo() got an unexpected keyword argument '' @ quoted k)))"
| "identity [] [] =
     Inl (Failure TypeError
            (''foo() missing 1 required positional argument: '' @ quoted ''a_''))"
| "identity args kw = Inl (Failure TypeError ''foo() called with the wrong arguments'')"

section \<open>\<^verbatim>\<open>cancellable\<close>\<close>

text \<open>
  What the closures \<^verbatim>\<open>_wrapped\<close>, \<^verbatim>\<open>_cancel\<close> and the \<^verbatim>\<open>cancel\<close> lambda share:
  the wrapped function and the \<^verbatim>\<open>started\<close> event made when \<^verbatim>\<open>cancellable(f)\<close>
  runs.
\<close>

record cancellable_wrapper =
  cw_f :: corofun
  cw_started :: ref

definition cancellable :: "corofun \<Rightarrow> world \<Rightarrow> cancellable_wrapper \<times> world" where
  "cancellable f w =
     (case new_event w of (started, w1) \<Rightarrow> (\<lparr>cw_f = f, cw_started = started\<rparr>, w1))"

definition cancellable_wrapped ::
  "cancellable_wrapper \<Rightarrow> pyval list \<Rightarrow> kwargs \<Rightarrow> thread \<Rightarrow> world \<Rightarrow> outcome \<times> world" where
  "cancellable_wrapped cw args kw t w =
     (let started = cw_started cw;
          w1 = event_clear started w
      in case ensure_event_loop t w1 of
           (Inl e, w2) \<Rightarrow> (Raises e, w2)
         | (Inr l, w2) \<Rightarrow>
             (let w3 = attach_loop started l w2;
                  w4 = event_set started w3
              in case cw_f cw args kw of
                   Inl e \<Rightarrow> (Raises e, w4)
                 | Inr coro \<Rightarrow> run_until_complete l coro w4))"

text \<open>
  The loop of \<^verbatim>\<open>_cancel\<close>. \<open>all_tasks i\<close> is what the \<open>i\<close>-th attempt to list
  the tasks gives: the tasks, or the exception raised while listing them.
\<close>

partial_function (option) cancel_retry ::
  "(nat \<Rightarrow> failure + task list) \<Rightarrow> task option \<Rightarrow> nat \<Rightarrow> (failure + task list) option" where
  "cancel_retry all_tasks current_task i =
     (case all_tasks i of
        Inr tasks_to_cancel \<Rightarrow>
          Some (Inr (filter (\<lambda>task. Some task \<noteq> current_task) tasks_to_cancel))
      | Inl exception \<Rightarrow>
          if isinstance_RuntimeError exception
          then cancel_retry all_tasks current_task (Suc i)
          else Some (Inl exception))"

text \<open>
  \<^verbatim>\<open>_cancel()\<close>, run by the loop in its thread \<open>t\<close>. Where the class methods
  exist (up to Python 3.8), \<open>current_task\<close> and \<open>all_tasks\<close> stand for
  \<^verbatim>\<open>Task.current_task(loop=loop)\<close> and \<^verbatim>\<open>Task.all_tasks(loop=loop)\<close>; where they do
  not, the first lookup raises \<^verbatim>\<open>AttributeError\<close>. \<open>None\<close> is a sweep that never
  ends.
\<close>

definition cancellable_cancel_sweep ::
  "(loop \<Rightarrow> task option) \<Rightarrow> (loop \<Rightarrow> nat \<Rightarrow> failure + task list) \<Rightarrow> thread \<Rightarrow> world
     \<Rightarrow> ((failure + unit) \<times> world) option" where
  "cancellable_cancel_sweep current_task all_tasks t w =
     (case ensure_event_loop t w of
        (Inl e, w1) \<Rightarrow> Some (Inl e, w1)
      | (Inr l, w1) \<Rightarrow>
          if \<not> has_task_classmethods w1 then
            Some (Inl (no_attribute (''type object '' @ quoted ''_asyncio.Task'') ''current_task''),
                  w1)
          else
            (case cancel_retry (all_tasks l) (current_task l) 0 of
               None \<Rightarrow> None
             | Some (Inl e) \<Rightarrow> Some (Inl e, w1)
             | Some (Inr tasks) \<Rightarrow>
                 Some (Inr (), w1\<lparr>cancel_requested := cancel_requested w1 @ tasks\<rparr>)))"

text \<open>\<^verbatim>\<open>_wrapped.cancel = lambda: started.loop.call_soon_threadsafe(_cancel)\<close>\<close>

definition cancellable_cancel :: "cancellable_wrapper \<Rightarrow> world \<Rightarrow> (failure + unit) \<times> world" where
  "cancellable_cancel cw w =
     (case loop_attr (events w (cw_started cw)) of
        None \<Rightarrow> (Inl (no_attribute (quoted ''Event'' @ '' object'') ''loop''), w)
      | Some l \<Rightarrow> call_soon_threadsafe l Cancel_sweep w)"


section \<open>\<^verbatim>\<open>sync\<close>\<close>

text \<open>
  An executor takes the step to run and arranges for it to run; \<open>sync\<close> receives
  one as \<^verbatim>\<open>async_wrapper\<close>.
\<close>

type_synonym executor = "(world \<Rightarrow> world) \<Rightarrow> world \<Rightarrow> world"

record sync_wrapper =
  sw_f :: corofun
  sw_loop :: loop
  sw_done :: ref

text \<open>\<^verbatim>\<open>sync(async_wrapper)(f)\<close>, called in thread \<open>t\<close>.\<close>

definition sync :: "executor \<Rightarrow> corofun \<Rightarrow> thread \<Rightarrow> world \<Rightarrow> (failure + sync_wrapper) \<times> world" where
  "sync async_wrapper f t w =
     (case ensure_event_loop t w of
        (Inl e, w1) \<Rightarrow> (Inl e, w1)
      | (Inr l, w1) \<Rightarrow>
          (case new_event w1 of
             (done, w2) \<Rightarrow> (Inr \<lparr>sw_f = f, sw_loop = l, sw_done = done\<rparr>, w2)))"

text \<open>\<^verbatim>\<open>_wrapped(*args)\<close>\<close>

definition sync_wrapped :: "sync_wrapper \<Rightarrow> pyval list \<Rightarrow> world \<Rightarrow> outcome \<times> world" where
  "sync_wrapped sw args w =
     (case sw_f sw args [] of
        Inl e \<Rightarrow> (Raises e, w)
      | Inr (Raises e) \<Rightarrow> (Raises e, w)
      | Inr (Returns v) \<Rightarrow>
          (case call_soon_threadsafe (sw_loop sw) (Event_set (sw_done sw))
                  (set_result (sw_done sw) v w) of
             (Inl e, w1) \<Rightarrow> (Raises e, w1)
           | (Inr u, w1) \<Rightarrow> (Returns (PBool False), w1)))"

text \<open>
  \<^verbatim>\<open>await done.wait()\<close>: it returns at once when the flag is set; otherwise the
  coroutine is resumed when a running loop takes a queued \<^verbatim>\<open>done.set\<close> off its queue
  and calls it, and never when no running loop holds one.
\<close>

definition event_wait :: "ref \<Rightarrow> world \<Rightarrow> world option" where
  "event_wait r w =
     (if flag (events w r) then Some w
      else
        (case find (\<lambda>l. is_running (loops w l) \<and> Event_set r \<in> set (ready (loops w l)))
                [0 ..< next_loop w] of
           None \<Rightarrow> None
         | Some l \<Rightarrow> Some (event_set r (dequeue l (Event_set r) w))))"

text \<open>\<^verbatim>\<open>_synced(*args)\<close>\<close>

definition sync_synced :: "sync_wrapper \<Rightarrow> pyval list \<Rightarrow> world \<Rightarrow> observed \<times> world" where
  "sync_synced sw args w =
     (case sync_wrapped sw args w of
        (Raises e, w1) \<Rightarrow> (Raised e, w1)
      | (Returns b, w1) \<Rightarrow>
          (case event_wait (sw_done sw) w1 of
             None \<Rightarrow> (Blocked, w1)
           | Some w2 \<Rightarrow>
               (case result_attr (events w2 (sw_done sw)) of
                  None \<Rightarrow> (Raised (no_attribute (quoted ''Event'' @ '' object'') ''result''), w2)
                | Some v \<Rightarrow> (Returned v, w2))))"

section \<open>Observations and scenarios\<close>

text \<open>The part of the trace that an operation taking \<open>w\<close> to \<open>w'\<close> has added.\<close>

definition new_actions :: "world \<Rightarrow> world \<Rightarrow> action list" where
  "new_actions w w' = drop (length (trace w)) (trace w')"

text \<open>\<open>precedes a b xs\<close>: no \<open>b\<close> occurs in \<open>xs\<close> before the first \<open>a\<close>.\<close>

fun precedes :: "action \<Rightarrow> action \<Rightarrow> action list \<Rightarrow> bool" where
  "precedes a b [] = True"
| "precedes a b (x # xs) =
     (if x = b then False else if x = a then True else precedes a b xs)"

text \<open>The event an action is about.\<close>

fun action_ref :: "action \<Rightarrow> ref option" where
  "action_ref (Created r) = Some r"
| "action_ref (Cleared r) = Some r"
| "action_ref (Attached r l) = Some r"
| "action_ref (Wrote_result r v) = Some r"
| "action_ref (Wrote_error r e) = Some r"
| "action_ref (Flag_set r) = Some r"
| "action_ref (Scheduled l (Event_set r)) = Some r"
| "action_ref a = None"

definition touched :: "action list \<Rightarrow> ref list" where
  "touched xs = List.map_filter action_ref xs"

text \<open>
  A process that has just started, with the default policy and the class methods of
  \<^verbatim>\<open>Task\<close>: the main thread is thread \<open>0\<close>, and there are no loops and no events
  yet.
\<close>

definition fresh_world :: "string \<Rightarrow> loop_kind \<Rightarrow> world" where
  "fresh_world sys k =
     \<lparr>system = sys, default_kind = k, has_task_classmethods = True,
      policy_fault = (\<lambda>t. None),
      thread_name = (\<lambda>t. if t = 0 then ''MainThread'' else ''Thread-N''),
      loops = (\<lambda>l. \<lparr>kind = k, is_running = False, is_closed = False, ready = []\<rparr>),
      next_loop = 0,
      bound = (\<lambda>t. None),
      events = (\<lambda>r. \<lparr>flag = False, loop_attr = None, result_attr = None, error_attr = None\<rparr>),
      next_ref = 0, next_thread = 1, cancel_requested = [], trace = []\<rparr>"

text \<open>The main thread with its loop bound, the loop not running.\<close>

definition main_loop_world :: "string \<Rightarrow> loop_kind \<Rightarrow> world" where
  "main_loop_world sys k = snd (ensure_event_loop 0 (fresh_world sys k))"

text \<open>The loop \<open>l\<close> is being run: the code that follows runs inside one of its coroutines.\<close>

definition set_running :: "loop \<Rightarrow> world \<Rightarrow> world" where
  "set_running l w = w\<lparr>loops := (loops w)(l := (loops w l)\<lparr>is_running := True\<rparr>)\<rparr>"

definition inside_coroutine_world :: "string \<Rightarrow> loop_kind \<Rightarrow> world" where
  "inside_coroutine_world sys k = set_running 0 (main_loop_world sys k)"

text \<open>
  A process whose event loop policy refuses to give a loop to any thread but the main
  one, with a \<^verbatim>\<open>RuntimeError\<close> of its own.
\<close>

definition strict_policy_world :: world where
  "strict_policy_world =
     (fresh_world ''Linux'' SelectorEventLoop)
       \<lparr>policy_fault :=
          (\<lambda>t. if t = 0 then None
                else Some (Failure RuntimeError ''event loops are for the main thread only''))\<rparr>"

text \<open>\<^verbatim>\<open>async def f(*args, **kwargs): raise SystemExit()\<close>\<close>

definition raise_system_exit :: corofun where
  "raise_system_exit args kw = Inr (Raises (Failure SystemExit []))"

text \<open>\<^verbatim>\<open>async def f(*args, **kwargs): raise ValueError('x')\<close>\<close>

definition raise_value_error :: corofun where
  "raise_value_error args kw = Inr (Raises (Failure ValueError ''x''))"

text \<open>An executor that leaves a mark when it is called and runs the step in place.\<close>

definition recording_executor :: executor where
  "recording_executor step w = step (w\<lparr>trace := trace w @ [Executor_called]\<rparr>)"



text \<open>
  A wrapper made by \<open>cancellable\<close> in a fresh process, the state after the wrapper
  has been called once in the main thread, and that state with the loop of the main
  thread running again.
\<close>

definition idle_wrapper :: cancellable_wrapper where
  "idle_wrapper = fst (cancellable identity (fresh_world ''Linux'' SelectorEventLoop))"

definition idle_world :: world where
  "idle_world = snd (cancellable identity (fresh_world ''Linux'' SelectorEventLoop))"

definition started_world :: world where
  "started_world = snd (cancellable_wrapped idle_wrapper [PInt 1] [] 0 idle_world)"


text \<open>
  The wrapper that \<open>sync\<close> makes for the identity function in the main thread of a
  fresh process, and the state in which the wrapper is then called from a coroutine
  running on the main thread's loop.
\<close>

definition bridge_wrapper :: sync_wrapper where
  "bridge_wrapper = \<lparr>sw_f = identity, sw_loop = 0, sw_done = 0\<rparr>"

definition bridge_world :: world where
  "bridge_world =
     set_running 0 (snd (sync recording_executor identity 0 (fresh_world ''Linux'' SelectorEventLoop)))"

section \<open>Basic facts\<close>

lemma str_contains_self_append: "str_contains n (n @ r)"
proof (cases "n @ r")
  case Nil
  then show ?thesis by simp
next
  case (Cons c cs)
  have "prefix n (n @ r)" by simp
  with Cons show ?thesis by simp
qed

lemma no_loop_msg_marker:
  "str_contains ''There is no current event loop'' (no_loop_msg name)"
proof -
  have "no_loop_msg name
          = ''There is no current event loop'' @ ('' in thread '' @ quoted name @ ''.'')"
    by (simp add: no_loop_msg_def)
  then show ?thesis by (simp only: str_contains_self_append)
qed

lemmas event_ops =
  new_event_def event_clear_def event_set_def attach_loop_def set_result_def set_error_def
  set_event_loop_def new_file_event_loop_def new_event_loop_def dequeue_def

lemmas loop_ops = run_until_complete_def loop_close_def call_soon_threadsafe_def

lemma get_event_loop_bound:
  "bound w t = Some l \<Longrightarrow> policy_fault w t = None \<or> is_running (loops w l) \<Longrightarrow>
     get_event_loop t w = Inr l"
  by (auto simp: get_event_loop_def running_loop_def)

lemma get_event_loop_unbound:
  "bound w t = None \<Longrightarrow> policy_fault w t = None \<Longrightarrow>
     get_event_loop t w = Inl (Failure RuntimeError (no_loop_msg (thread_name w t)))"
  by (simp add: get_event_loop_def running_loop_def)

lemma ensure_event_loop_bound:
  "bound w t = Some l \<Longrightarrow> policy_fault w t = None \<or> is_running (loops w l) \<Longrightarrow>
     ensure_event_loop t w = (Inr l, w)"
  by (simp add: ensure_event_loop_def get_event_loop_bound)

lemma ensure_event_loop_unbound:
  "bound w t = None \<Longrightarrow> policy_fault w t = None \<Longrightarrow>
     ensure_event_loop t w =
       (Inr (next_loop w),
        w\<lparr>loops := (loops w)(next_loop w :=
              \<lparr>kind = default_kind w, is_running = False, is_closed = False, ready = []\<rparr>),
          next_loop := Suc (next_loop w),
          bound := (bound w)(t := Some (next_loop w))\<rparr>)"
  by (simp add: ensure_event_loop_def get_event_loop_unbound no_loop_msg_marker event_ops)

lemma ensure_event_loop_preserves:
  assumes "ensure_event_loop t w = (r, w')"
  shows "trace w' = trace w" and "events w' = events w" and "next_ref w' = next_ref w"
    and "system w' = system w" and "cancel_requested w' = cancel_requested w"
    and "next_thread w' = next_thread w"
    and "has_task_classmethods w' = has_task_classmethods w"
    and "policy_fault w' = policy_fault w"
proof -
  show "trace w' = trace w" "events w' = events w" "next_ref w' = next_ref w"
    "system w' = system w" "cancel_requested w' = cancel_requested w"
    "next_thread w' = next_thread w" "has_task_classmethods w' = has_task_classmethods w"
    "policy_fault w' = policy_fault w"
    using assms
    by (auto simp: ensure_event_loop_def event_ops split: sum.splits if_splits)
qed

lemma ensure_event_loop_binds:
  "ensure_event_loop t w = (Inr l, w') \<Longrightarrow> bound w' t = Some l"
  by (auto simp: ensure_event_loop_def get_event_loop_def running_loop_def event_ops
      split: sum.splits if_splits option.splits)

text \<open>\<open>ensure_event_loop\<close> neither reads nor writes the events and the trace.\<close>

lemma ensure_event_loop_event_clear:
  "ensure_event_loop t (event_clear s w)
     = (fst (ensure_event_loop t w), event_clear s (snd (ensure_event_loop t w)))"
  by (auto simp: ensure_event_loop_def get_event_loop_def running_loop_def event_ops
      split: sum.splits if_splits option.splits)

lemma main_loop_world_eq:
  "main_loop_world sys k =
     (fresh_world sys k)\<lparr>loops := (loops (fresh_world sys k))(0 :=
              \<lparr>kind = k, is_running = False, is_closed = False, ready = []\<rparr>),
          next_loop := Suc 0, bound := (bound (fresh_world sys k))(0 := Some 0)\<rparr>"
  by (simp add: main_loop_world_def ensure_event_loop_unbound fresh_world_def)

lemma touched_simps:
  "touched [] = []"
  "touched (a # xs) = (case action_ref a of None \<Rightarrow> touched xs | Some r \<Rightarrow> r # touched xs)"
  by (simp_all add: touched_def List.map_filter_simps split: option.splits)

text \<open>What the operations add to the trace, and the state of the signals after them.\<close>

lemma with_loop_run_touches:
  "\<exists>new. trace (with_loop_run r generator t w) = trace w @ new \<and> set (touched new) \<subseteq> {r}"
  "next_ref (with_loop_run r generator t w) = next_ref w"
proof -
  obtain res w1 where e: "ensure_event_loop t w = (res, w1)"
    by (cases "ensure_event_loop t w")
  note p = ensure_event_loop_preserves(1,3) [OF e]
  show "\<exists>new. trace (with_loop_run r generator t w) = trace w @ new \<and> set (touched new) \<subseteq> {r}"
    using e p
    by (auto simp: with_loop_run_def loop_ops event_ops touched_simps
        split: sum.splits outcome.splits)
  show "next_ref (with_loop_run r generator t w) = next_ref w"
    using e p
    by (auto simp: with_loop_run_def loop_ops event_ops split: sum.splits outcome.splits)
qed

lemma with_loop_run_fresh:
  assumes "bound w t = None" and "policy_fault w t = None"
  shows "new_actions w (with_loop_run r generator t w) =
           (case generator of
              Returns v \<Rightarrow>
                [Ran (next_loop w), Wrote_result r v, Wrote_error r None,
                 Closed (next_loop w), Flag_set r]
            | Raises e \<Rightarrow>
                if isinstance_Exception e then
                  [Ran (next_loop w), Wrote_result r PNone, Wrote_error r (Some e),
                   Closed (next_loop w), Flag_set r]
                else [Ran (next_loop w), Closed (next_loop w)])"
    and "case generator of
           Returns v \<Rightarrow>
             flag (events (with_loop_run r generator t w) r)
             \<and> result_attr (events (with_loop_run r generator t w) r) = Some v
             \<and> error_attr (events (with_loop_run r generator t w) r) = Some None
             \<and> with_loop_join r (with_loop_run r generator t w) = Returned v
         | Raises e \<Rightarrow>
             if isinstance_Exception e then
               flag (events (with_loop_run r generator t w) r)
               \<and> result_attr (events (with_loop_run r generator t w) r) = Some PNone
               \<and> error_attr (events (with_loop_run r generator t w) r) = Some (Some e)
               \<and> with_loop_join r (with_loop_run r generator t w) = Raised e
             else events (with_loop_run r generator t w) r = events w r"
  using assms
  by (simp_all add: new_actions_def with_loop_run_def with_loop_join_def
      ensure_event_loop_unbound loop_ops event_ops split: outcome.splits)

lemma with_loop_run_order:
  "case ensure_event_loop t w of
     (Inl x, w1) \<Rightarrow> with_loop_run r generator t w = w1
   | (Inr l, w1) \<Rightarrow>
       (case fst (run_until_complete l generator w1) of
          Returns v \<Rightarrow>
            precedes (Wrote_result r v) (Flag_set r)
              (new_actions w (with_loop_run r generator t w))
            \<and> precedes (Wrote_error r None) (Flag_set r)
                (new_actions w (with_loop_run r generator t w))
        | Raises e \<Rightarrow>
            precedes (Wrote_result r PNone) (Flag_set r)
              (new_actions w (with_loop_run r generator t w))
            \<and> precedes (Wrote_error r (Some e)) (Flag_set r)
                (new_actions w (with_loop_run r generator t w)))"
proof -
  obtain res w1 where e: "ensure_event_loop t w = (res, w1)"
    by (cases "ensure_event_loop t w")
  note p = ensure_event_loop_preserves(1) [OF e]
  show ?thesis
    using e p
    by (cases res)
       (auto simp: with_loop_run_def new_actions_def loop_ops event_ops
          split: outcome.splits)
qed

lemma cancellable_wrapped_effect:
  assumes e: "ensure_event_loop t w = (res, w1)"
  shows "case res of
           Inl x \<Rightarrow>
             cancellable_wrapped cw args kw t w = (Raises x, event_clear (cw_started cw) w1)
         | Inr l \<Rightarrow>
             trace (snd (cancellable_wrapped cw args kw t w)) = trace w @
               [Cleared (cw_started cw), Attached (cw_started cw) l, Flag_set (cw_started cw)]
                 @ (case cw_f cw args kw of
                      Inl x \<Rightarrow> []
                    | Inr coro \<Rightarrow>
                        if is_closed (loops w1 l) \<or> is_running (loops w1 l) then []
                        else [Ran l])
             \<and> flag (events (snd (cancellable_wrapped cw args kw t w)) (cw_started cw))
             \<and> loop_attr (events (snd (cancellable_wrapped cw args kw t w)) (cw_started cw))
                 = Some l"
    and "next_ref (snd (cancellable_wrapped cw args kw t w)) = next_ref w"
proof -
  have c: "ensure_event_loop t (event_clear (cw_started cw) w)
             = (res, event_clear (cw_started cw) w1)"
    using e by (simp add: ensure_event_loop_event_clear)
  note p = ensure_event_loop_preserves(1,3) [OF e]
  show "case res of
           Inl x \<Rightarrow>
             cancellable_wrapped cw args kw t w = (Raises x, event_clear (cw_started cw) w1)
         | Inr l \<Rightarrow>
             trace (snd (cancellable_wrapped cw args kw t w)) = trace w @
               [Cleared (cw_started cw), Attached (cw_started cw) l, Flag_set (cw_started cw)]
                 @ (case cw_f cw args kw of
                      Inl x \<Rightarrow> []
                    | Inr coro \<Rightarrow>
                        if is_closed (loops w1 l) \<or> is_running (loops w1 l) then []
                        else [Ran l])
             \<and> flag (events (snd (cancellable_wrapped cw args kw t w)) (cw_started cw))
             \<and> loop_attr (events (snd (cancellable_wrapped cw args kw t w)) (cw_started cw))
                 = Some l"
    using c p
    by (auto simp: cancellable_wrapped_def Let_def loop_ops event_ops split: sum.splits)
  show "next_ref (snd (cancellable_wrapped cw args kw t w)) = next_ref w"
    using c p
    by (auto simp: cancellable_wrapped_def Let_def loop_ops event_ops split: sum.splits)
qed

lemma cancellable_wrapped_touches:
  "hd (new_actions w (snd (cancellable_wrapped cw args kw t w))) = Cleared (cw_started cw)"
  "set (touched (new_actions w (snd (cancellable_wrapped cw args kw t w)))) = {cw_started cw}"
  "Created r \<notin> set (new_actions w (snd (cancellable_wrapped cw args kw t w)))"
proof -
  obtain res w1 where e: "ensure_event_loop t w = (res, w1)"
    by (cases "ensure_event_loop t w")
  note eff = cancellable_wrapped_effect(1) [OF e, of cw args kw]
  note p = ensure_event_loop_preserves(1) [OF e]
  show "hd (new_actions w (snd (cancellable_wrapped cw args kw t w))) = Cleared (cw_started cw)"
    "set (touched (new_actions w (snd (cancellable_wrapped cw args kw t w)))) = {cw_started cw}"
    "Created r \<notin> set (new_actions w (snd (cancellable_wrapped cw args kw t w)))"
    using eff p
    by (cases res; auto simp: new_actions_def touched_simps event_clear_def split: sum.splits)+
qed

lemma with_loop_isolated_trace:
  assumes ens: "ensure_event_loop t w = (Inr l, w1)"
    and req: "thread_required l w1 = Inr True"
  shows "\<exists>rest. new_actions w (snd (with_loop_wrapped func args kw t w))
                   = Created (next_ref w) # rest
               \<and> set (touched rest) \<subseteq> {next_ref w}
               \<and> next_ref (snd (with_loop_wrapped func args kw t w)) = Suc (next_ref w)"
proof -
  have p: "trace w1 = trace w" "next_ref w1 = next_ref w"
    using ensure_event_loop_preserves(1,3) [OF ens] by simp_all
  define r where "r = next_ref w"
  obtain w2 where w2: "new_event w1 = (r, w2)" and t2: "trace w2 = trace w @ [Created r]"
    and n2: "next_ref w2 = Suc r"
    using p by (simp add: new_event_def r_def)
  show ?thesis
  proof (cases "func args kw")
    case (Inl e)
    with ens req w2 t2 n2 show ?thesis
      by (simp add: with_loop_wrapped_def new_actions_def r_def touched_simps)
  next
    case (Inr g)
    obtain t' w3 where w3: "thread_start w2 = (t', w3)" and t3: "trace w3 = trace w2"
      and n3: "next_ref w3 = next_ref w2"
      by (simp add: thread_start_def)
    obtain new where run: "trace (with_loop_run r g t' w3) = trace w3 @ new"
      "set (touched new) \<subseteq> {r}"
      using with_loop_run_touches(1) [of r g t' w3] by blast
    from ens req w2 w3 Inr t2 t3 n2 n3 run with_loop_run_touches(2) [of r g t' w3]
    show ?thesis
      by (simp add: with_loop_wrapped_def new_actions_def r_def Let_def)
  qed
qed

lemma sync_synced_touches:
  "set (touched (new_actions w (snd (sync_synced sw args w)))) \<subseteq> {sw_done sw}"
  "next_ref (snd (sync_synced sw args w)) = next_ref w"
  "Created r \<notin> set (new_actions w (snd (sync_synced sw args w)))"
  by (auto simp: sync_synced_def sync_wrapped_def event_wait_def new_actions_def
      loop_ops event_ops touched_simps Let_def
      split: sum.splits outcome.splits option.splits if_splits)

lemma sync_creates_done:
  "case sync async_wrapper f t w of
     (Inl e, w') \<Rightarrow> new_actions w w' = [] \<and> next_ref w' = next_ref w
   | (Inr sw, w') \<Rightarrow>
       sw_f sw = f \<and> sw_done sw = next_ref w \<and> new_actions w w' = [Created (next_ref w)]
       \<and> next_ref w' = Suc (next_ref w)"
proof -
  obtain res w1 where e: "ensure_event_loop t w = (res, w1)"
    by (cases "ensure_event_loop t w")
  with ensure_event_loop_preserves(1,3) [OF e] show ?thesis
    by (cases res) (simp_all add: sync_def new_event_def new_actions_def)
qed

lemma cancellable_creates_started:
  "cw_started (fst (cancellable f w)) = next_ref w"
  "new_actions w (snd (cancellable f w)) = [Created (next_ref w)]"
  "next_ref (snd (cancellable f w)) = Suc (next_ref w)"
  by (simp_all add: cancellable_def new_event_def new_actions_def)





lemma cancel_on_closed_loop:
  "loop_attr (events w (cw_started cw)) = Some l \<Longrightarrow> is_closed (loops w l) \<Longrightarrow>
     cancellable_cancel cw w = (Inl (Failure RuntimeError ''Event loop is closed''), w)"
  by (simp add: cancellable_cancel_def call_soon_threadsafe_def)

lemma cancel_sweep_without_class_methods:
  "bound w t = Some l \<Longrightarrow> is_running (loops w l) \<Longrightarrow> \<not> has_task_classmethods w \<Longrightarrow>
     cancellable_cancel_sweep current_task all_tasks t w
       = Some (Inl (no_attribute (''type object '' @ quoted ''_asyncio.Task'') ''current_task''), w)"
  by (simp add: cancellable_cancel_sweep_def ensure_event_loop_bound)


section \<open>The loop of a thread\<close>

text \<open>
  Claim C5. In a thread for which the event loop policy raises nothing of its own,
  \<open>ensure_event_loop\<close> returns the loop bound to the thread and changes nothing, or,
  when there is none, makes a new loop (a new loop object of the default class, open and
  idle, with the counter of loops advanced) and binds it to the thread. Either way a
  second call returns that same loop and changes nothing.
\<close>

theorem ensure_event_loop_idempotent:
  assumes "policy_fault w t = None"
  shows "ensure_event_loop t w =
           (case bound w t of
              Some l \<Rightarrow> (Inr l, w)
            | None \<Rightarrow>
                (Inr (next_loop w),
                 w\<lparr>loops := (loops w)(next_loop w :=
                       \<lparr>kind = default_kind w, is_running = False, is_closed = False,
                        ready = []\<rparr>),
                   next_loop := Suc (next_loop w),
                   bound := (bound w)(t := Some (next_loop w))\<rparr>))
         \<and> (\<exists>l. fst (ensure_event_loop t w) = Inr l
                \<and> bound (snd (ensure_event_loop t w)) t = Some l
                \<and> ensure_event_loop t (snd (ensure_event_loop t w))
                    = (Inr l, snd (ensure_event_loop t w)))"
proof (cases "bound w t")
  case None
  note first = ensure_event_loop_unbound [OF None assms]
  let ?w' = "snd (ensure_event_loop t w)"
  have b: "bound ?w' t = Some (next_loop w)" and f: "policy_fault ?w' t = None"
    using assms by (simp_all add: first)
  from ensure_event_loop_bound [OF b] f
  have "ensure_event_loop t ?w' = (Inr (next_loop w), ?w')" by simp
  with None first b show ?thesis by simp
next
  case (Some l)
  with ensure_event_loop_bound [OF Some] assms show ?thesis by simp
qed

theorem ensure_event_loop_idempotent_witness:
  "fst (ensure_event_loop 1 (fresh_world ''Linux'' SelectorEventLoop)) = Inr 0
   \<and> next_loop (snd (ensure_event_loop 1 (fresh_world ''Linux'' SelectorEventLoop))) = 1
   \<and> bound (snd (ensure_event_loop 1 (fresh_world ''Linux'' SelectorEventLoop))) 1 = Some 0
   \<and> ensure_event_loop 1 (snd (ensure_event_loop 1 (fresh_world ''Linux'' SelectorEventLoop)))
       = (Inr 0, snd (ensure_event_loop 1 (fresh_world ''Linux'' SelectorEventLoop)))"
proof -
  have f: "policy_fault (fresh_world ''Linux'' SelectorEventLoop) 1 = None"
    by (simp add: fresh_world_def)
  have b: "bound (fresh_world ''Linux'' SelectorEventLoop) (Suc 0) = None"
    "next_loop (fresh_world ''Linux'' SelectorEventLoop) = 0"
    by (simp_all add: fresh_world_def)
  from ensure_event_loop_idempotent [OF f] show ?thesis
    by (auto simp: b)
qed

text \<open>
  Claim C10. When \<^verbatim>\<open>asyncio.get_event_loop()\<close> raises \<open>e\<close> in the thread,
  \<open>ensure_event_loop\<close> makes and binds a new loop only if \<open>e\<close> is a
  \<^verbatim>\<open>RuntimeError\<close> whose text contains \<^verbatim>\<open>There is no current event loop\<close>; every
  other exception is raised to the caller as it is and the state is unchanged, so that no
  loop is made. Both cases occur: where no loop is running in the thread, what the policy
  raises is what \<^verbatim>\<open>asyncio.get_event_loop()\<close> raises; and under the default policy a
  thread without a loop gets the error with the marker, and then a new loop.
\<close>

theorem ensure_event_loop_recovers_only_missing_loop:
  "(get_event_loop t w = Inl e \<longrightarrow>
      ensure_event_loop t w =
        (if isinstance_RuntimeError e
             \<and> str_contains ''There is no current event loop'' (exn_str e)
         then
           (Inr (next_loop w),
            w\<lparr>loops := (loops w)(next_loop w :=
                  \<lparr>kind = default_kind w, is_running = False, is_closed = False,
                   ready = []\<rparr>),
              next_loop := Suc (next_loop w),
              bound := (bound w)(t := Some (next_loop w))\<rparr>)
         else (Inl e, w)))
   \<and> (running_loop t w = None \<and> policy_fault w t = Some x \<longrightarrow>
        get_event_loop t w = Inl x)
   \<and> (bound w t = None \<and> policy_fault w t = None \<longrightarrow>
        get_event_loop t w = Inl (Failure RuntimeError (no_loop_msg (thread_name w t)))
        \<and> fst (ensure_event_loop t w) = Inr (next_loop w))"
proof -
  have handled: "ensure_event_loop t w =
        (if isinstance_RuntimeError e
             \<and> str_contains ''There is no current event loop'' (exn_str e)
         then
           (Inr (next_loop w),
            w\<lparr>loops := (loops w)(next_loop w :=
                  \<lparr>kind = default_kind w, is_running = False, is_closed = False,
                   ready = []\<rparr>),
              next_loop := Suc (next_loop w),
              bound := (bound w)(t := Some (next_loop w))\<rparr>)
         else (Inl e, w))"
    if "get_event_loop t w = Inl e"
    using that by (simp add: ensure_event_loop_def event_ops)
  have policy: "get_event_loop t w = Inl x"
    if "running_loop t w = None" "policy_fault w t = Some x"
    using that by (simp add: get_event_loop_def)
  have missing: "get_event_loop t w = Inl (Failure RuntimeError (no_loop_msg (thread_name w t)))
        \<and> fst (ensure_event_loop t w) = Inr (next_loop w)"
    if "bound w t = None" "policy_fault w t = None"
    using that by (simp add: get_event_loop_unbound ensure_event_loop_unbound)
  from handled policy missing show ?thesis by blast
qed

theorem ensure_event_loop_recovers_only_missing_loop_witness:
  "ensure_event_loop 1 strict_policy_world
     = (Inl (Failure RuntimeError ''event loops are for the main thread only''),
        strict_policy_world)
   \<and> fst (ensure_event_loop 1 (fresh_world ''Linux'' SelectorEventLoop)) = Inr 0
   \<and> bound (snd (ensure_event_loop 1 (fresh_world ''Linux'' SelectorEventLoop))) 1 = Some 0
   \<and> next_loop (snd (ensure_event_loop 1 (fresh_world ''Linux'' SelectorEventLoop))) = 1"
proof -
  let ?x = "Failure RuntimeError ''event loops are for the main thread only''"
  let ?m = "Failure RuntimeError (no_loop_msg ''Thread-N'')"
  have strict: "running_loop 1 strict_policy_world = None"
    "policy_fault strict_policy_world 1 = Some ?x"
    by (simp_all add: running_loop_def strict_policy_world_def fresh_world_def)
  have fresh: "bound (fresh_world ''Linux'' SelectorEventLoop) 1 = None"
    "policy_fault (fresh_world ''Linux'' SelectorEventLoop) 1 = None"
    "thread_name (fresh_world ''Linux'' SelectorEventLoop) 1 = ''Thread-N''"
    by (simp_all add: fresh_world_def)
  have marker: "str_contains ''There is no current event loop'' (no_loop_msg ''Thread-N'')"
    by (rule no_loop_msg_marker)
  note s = ensure_event_loop_recovers_only_missing_loop
             [where t = 1 and w = strict_policy_world and e = ?x and x = ?x]
  note f = ensure_event_loop_recovers_only_missing_loop
             [where t = 1 and w = "fresh_world ''Linux'' SelectorEventLoop" and e = ?m
                and x = ?x]
  from s strict have "ensure_event_loop 1 strict_policy_world = (Inl ?x, strict_policy_world)"
    by simp
  moreover from f fresh marker
  have "ensure_event_loop 1 (fresh_world ''Linux'' SelectorEventLoop)
      = (Inr (next_loop (fresh_world ''Linux'' SelectorEventLoop)),
         (fresh_world ''Linux'' SelectorEventLoop)
           \<lparr>loops := (loops (fresh_world ''Linux'' SelectorEventLoop))
               (next_loop (fresh_world ''Linux'' SelectorEventLoop) :=
                  \<lparr>kind = default_kind (fresh_world ''Linux'' SelectorEventLoop),
                   is_running = False, is_closed = False, ready = []\<rparr>),
             next_loop := Suc (next_loop (fresh_world ''Linux'' SelectorEventLoop)),
             bound := (bound (fresh_world ''Linux'' SelectorEventLoop))
               (1 := Some (next_loop (fresh_world ''Linux'' SelectorEventLoop)))\<rparr>)"
    by simp
  ultimately show ?thesis
    by (simp add: fresh_world_def)
qed

text \<open>
  Claim C7. \<open>new_file_event_loop\<close> has no branch on the platform: it returns a loop
  of the platform's default class. On Windows with the selector loop as the default, the
  loop it returns is a selector loop, not the proactor loop its documentation asks for.
\<close>

theorem new_file_event_loop_windows_default:
  "system (snd (new_file_event_loop (fresh_world ''Windows'' SelectorEventLoop))) = ''Windows''
   \<and> kind (loops (snd (new_file_event_loop (fresh_world ''Windows'' SelectorEventLoop)))
               (fst (new_file_event_loop (fresh_world ''Windows'' SelectorEventLoop))))
       = SelectorEventLoop"
  by (simp add: event_ops fresh_world_def)

section \<open>Running a coroutine with \<^verbatim>\<open>with_loop\<close>\<close>

text \<open>
  What does hold of the outcome. The wrapper returns the value, or raises the failure,
  of awaiting the function on the same arguments in two cases: when it uses a background
  thread, the policy raises nothing of its own in that thread and the failure is an
  instance of \<^verbatim>\<open>Exception\<close>; and when it runs the coroutine on the caller's loop, that
  loop is open and the call has no positional arguments.
\<close>

lemma with_loop_returns_value:
  assumes ens: "ensure_event_loop t w = (Inr l, w1)"
    and req: "thread_required l w1 = Inr required"
    and direct: "\<not> required \<Longrightarrow> args = [] \<and> \<not> is_closed (loops w1 l)"
    and isolated: "required \<Longrightarrow> policy_fault w (next_thread w) = None"
    and returns: "awaited func args kw = Returns v"
  shows "fst (with_loop_wrapped func args kw t w) = Returned v"
proof (cases required)
  case False
  with direct have d: "args = []" "\<not> is_closed (loops w1 l)" by simp_all
  from req False have "\<not> is_running (loops w1 l)"
    by (auto simp: thread_required_def split: if_splits)
  with d returns ens req False show ?thesis
    by (auto simp: with_loop_wrapped_def awaited_def run_until_complete_def
        split: sum.splits outcome.splits)
next
  case True
  from returns have call: "func args kw = Inr (Returns v)"
    by (cases "func args kw") (simp_all add: awaited_def)
  note p = ensure_event_loop_preserves(6,8) [OF ens]
  obtain w2 where w2: "new_event w1 = (next_ref w1, w2)"
    and p2: "next_thread w2 = next_thread w1" "policy_fault w2 = policy_fault w1"
    by (simp add: new_event_def)
  obtain w3 where w3: "thread_start w2 = (next_thread w2, w3)"
    and b: "bound w3 (next_thread w2) = None"
    and f: "policy_fault w3 = policy_fault w2"
    by (simp add: thread_start_def)
  from isolated True p p2 f have f3: "policy_fault w3 (next_thread w2) = None" by simp
  from with_loop_run_fresh(2) [OF b f3, of "next_ref w1" "Returns v"]
  show ?thesis
    using ens req True call w2 w3
    by (simp add: with_loop_wrapped_def Let_def)
qed

lemma with_loop_reraises_exception:
  assumes ens: "ensure_event_loop t w = (Inr l, w1)"
    and req: "thread_required l w1 = Inr required"
    and direct: "\<not> required \<Longrightarrow> args = [] \<and> \<not> is_closed (loops w1 l)"
    and isolated: "required \<Longrightarrow> policy_fault w (next_thread w) = None \<and> isinstance_Exception e"
    and raises: "awaited func args kw = Raises e"
  shows "fst (with_loop_wrapped func args kw t w) = Raised e"
proof (cases required)
  case False
  with direct have d: "args = []" "\<not> is_closed (loops w1 l)" by simp_all
  from req False have "\<not> is_running (loops w1 l)"
    by (auto simp: thread_required_def split: if_splits)
  with d raises ens req False show ?thesis
    by (auto simp: with_loop_wrapped_def awaited_def run_until_complete_def
        split: sum.splits outcome.splits)
next
  case True
  with isolated have e: "isinstance_Exception e" and pf: "policy_fault w (next_thread w) = None"
    by simp_all
  show ?thesis
  proof (cases "func args kw")
    case (Inl e')
    with raises ens req True show ?thesis
      by (simp add: with_loop_wrapped_def awaited_def new_event_def)
  next
    case (Inr coro)
    with raises have coro: "coro = Raises e" by (simp add: awaited_def)
    note p = ensure_event_loop_preserves(6,8) [OF ens]
    obtain w2 where w2: "new_event w1 = (next_ref w1, w2)"
      and p2: "next_thread w2 = next_thread w1" "policy_fault w2 = policy_fault w1"
      by (simp add: new_event_def)
    obtain w3 where w3: "thread_start w2 = (next_thread w2, w3)"
      and b: "bound w3 (next_thread w2) = None"
      and f: "policy_fault w3 = policy_fault w2"
      by (simp add: thread_start_def)
    from pf p p2 f have f3: "policy_fault w3 (next_thread w2) = None" by simp
    from with_loop_run_fresh(2) [OF b f3, of "next_ref w1" "Raises e"] e
    show ?thesis
      using ens req True Inr coro w2 w3
      by (simp add: with_loop_wrapped_def Let_def)
  qed
qed

text \<open>
  Claim C1. The wrapper of \<open>with_loop\<close> does not return what awaiting the function on
  the same arguments returns when it runs the coroutine on the caller's loop: that branch
  calls the function without the positional arguments. For the identity function and the
  argument \<^verbatim>\<open>'hello'\<close>, on Windows with a proactor loop bound that is not running,
  the wrapper raises \<^verbatim>\<open>TypeError\<close>.
\<close>

theorem with_loop_direct_call_drops_args:
  "fst (with_loop_wrapped identity [PStr ''hello''] [] 0
          (main_loop_world ''Windows'' ProactorEventLoop))
     = Raised (Failure TypeError
                 (''foo() missing 1 required positional argument: '' @ quoted ''a_''))
   \<and> awaited identity [PStr ''hello''] [] = Returns (PStr ''hello'')"
  by (simp add: with_loop_wrapped_def main_loop_world_eq ensure_event_loop_bound
      thread_required_def awaited_def fresh_world_def)

text \<open>
  Claim C4. A failure of the coroutine is not always raised again in the caller. A
  coroutine that raises \<^verbatim>\<open>SystemExit\<close>, which \<^verbatim>\<open>except Exception\<close> does not catch,
  ends the background thread before \<^verbatim>\<open>finished.set()\<close>, which stands after the
  \<^verbatim>\<open>try\<close> statement, and the caller waits for ever; on the caller's own loop the
  same failure is raised in the caller.
\<close>

theorem with_loop_system_exit_blocks:
  "fst (with_loop_wrapped raise_system_exit [] [] 0
          (inside_coroutine_world ''Linux'' SelectorEventLoop)) = Blocked
   \<and> awaited raise_system_exit [] [] = Raises (Failure SystemExit [])
   \<and> fst (with_loop_wrapped raise_system_exit [] [] 0
          (main_loop_world ''Windows'' ProactorEventLoop)) = Raised (Failure SystemExit [])"
  by (simp add: with_loop_wrapped_def inside_coroutine_world_def set_running_def
      main_loop_world_eq ensure_event_loop_bound ensure_event_loop_unbound
      thread_required_def awaited_def loop_ops event_ops thread_start_def fresh_world_def
      raise_system_exit_def with_loop_run_def with_loop_join_def)

text \<open>
  Off Windows, a call made outside a running loop does not reach the coroutine at all:
  a coroutine that would raise \<^verbatim>\<open>ValueError('x')\<close> leaves the caller with the
  \<^verbatim>\<open>AttributeError\<close> of the lookup of \<^verbatim>\<open>asyncio.ProactorEventLoop\<close>.
\<close>

lemma with_loop_value_error_off_windows:
  "fst (with_loop_wrapped raise_value_error [] [] 0 (main_loop_world ''Linux'' SelectorEventLoop))
     = Raised (no_attribute (''module '' @ quoted ''asyncio'') ''ProactorEventLoop'')
   \<and> awaited raise_value_error [] [] = Raises (Failure ValueError ''x'')"
  by (simp add: with_loop_wrapped_def main_loop_world_eq ensure_event_loop_bound
      thread_required_def awaited_def fresh_world_def raise_value_error_def)

section \<open>Cancelling with \<^verbatim>\<open>cancellable\<close>\<close>

text \<open>
  Claim C3, as stated, fails: \<^verbatim>\<open>cancel()\<close> on a wrapper that was never called is not
  a no-op, it raises \<^verbatim>\<open>AttributeError\<close>, because no loop has been attached to
  \<^verbatim>\<open>started\<close> yet.
\<close>

theorem cancel_idle_raises:
  "fst (cancellable_cancel idle_wrapper idle_world)
     = Inl (no_attribute (quoted ''Event'' @ '' object'') ''loop'')
   \<and> fst (cancellable_cancel idle_wrapper idle_world) \<noteq> Inr ()"
  by (simp add: idle_wrapper_def idle_world_def cancellable_def cancellable_cancel_def
      event_ops fresh_world_def)

text \<open>
  Claim C3, amended. On a wrapper that was never called, \<^verbatim>\<open>started\<close> has no loop
  attached, and \<^verbatim>\<open>cancel()\<close> raises \<^verbatim>\<open>AttributeError\<close> and changes nothing: it
  schedules nothing and cancels no task.
\<close>

theorem cancel_idle_fails_without_effect:
  "(case cancellable f w of
      (cw, w1) \<Rightarrow>
        loop_attr (events w1 (cw_started cw)) = None
        \<and> cancellable_cancel cw w1
            = (Inl (no_attribute (quoted ''Event'' @ '' object'') ''loop''), w1))"
  by (simp add: cancellable_def cancellable_cancel_def new_event_def)



section \<open>The order of the writes to a signal\<close>

text \<open>
  Claim C8. In every state, the body of the background thread of \<open>with_loop\<close> sets
  the event only after it has written the \<^verbatim>\<open>result\<close> and the \<^verbatim>\<open>error\<close>
  attribute: the value of the run and \<^verbatim>\<open>None\<close>, or \<^verbatim>\<open>None\<close> and its failure. In
  a thread that has just started, under the default policy, these are the value or the
  failure of the coroutine, and the caller that finds the event set reads exactly that
  value or failure; when the failure is not an instance of \<^verbatim>\<open>Exception\<close>, nothing is
  written and the event is left as it was. A call of a \<open>cancellable\<close> wrapper, in any
  state, clears \<^verbatim>\<open>started\<close>, attaches the loop to it before it sets it, and sets it
  before the coroutine runs; when no loop can be had, \<^verbatim>\<open>started\<close> stays cleared.
\<close>

theorem signal_payload_before_flag:
  "(case ensure_event_loop tr wr of
      (Inl x, w1) \<Rightarrow> with_loop_run rr coro tr wr = w1
    | (Inr l, w1) \<Rightarrow>
        (case fst (run_until_complete l coro w1) of
           Returns v \<Rightarrow>
             precedes (Wrote_result rr v) (Flag_set rr)
               (new_actions wr (with_loop_run rr coro tr wr))
             \<and> precedes (Wrote_error rr None) (Flag_set rr)
                 (new_actions wr (with_loop_run rr coro tr wr))
         | Raises e \<Rightarrow>
             precedes (Wrote_result rr PNone) (Flag_set rr)
               (new_actions wr (with_loop_run rr coro tr wr))
             \<and> precedes (Wrote_error rr (Some e)) (Flag_set rr)
                 (new_actions wr (with_loop_run rr coro tr wr))))
   \<and> (bound w t = None \<and> policy_fault w t = None \<longrightarrow>
      (case generator of
         Returns v \<Rightarrow>
           new_actions w (with_loop_run r generator t w)
             = [Ran (next_loop w), Wrote_result r v, Wrote_error r None,
                Closed (next_loop w), Flag_set r]
           \<and> precedes (Wrote_result r v) (Flag_set r)
                (new_actions w (with_loop_run r generator t w))
           \<and> precedes (Wrote_error r None) (Flag_set r)
                (new_actions w (with_loop_run r generator t w))
           \<and> flag (events (with_loop_run r generator t w) r)
           \<and> result_attr (events (with_loop_run r generator t w) r) = Some v
           \<and> error_attr (events (with_loop_run r generator t w) r) = Some None
           \<and> with_loop_join r (with_loop_run r generator t w) = Returned v
       | Raises e \<Rightarrow>
           if isinstance_Exception e then
             new_actions w (with_loop_run r generator t w)
               = [Ran (next_loop w), Wrote_result r PNone, Wrote_error r (Some e),
                  Closed (next_loop w), Flag_set r]
             \<and> precedes (Wrote_result r PNone) (Flag_set r)
                  (new_actions w (with_loop_run r generator t w))
             \<and> precedes (Wrote_error r (Some e)) (Flag_set r)
                  (new_actions w (with_loop_run r generator t w))
             \<and> flag (events (with_loop_run r generator t w) r)
             \<and> result_attr (events (with_loop_run r generator t w) r) = Some PNone
             \<and> error_attr (events (with_loop_run r generator t w) r) = Some (Some e)
             \<and> with_loop_join r (with_loop_run r generator t w) = Raised e
           else
             new_actions w (with_loop_run r generator t w)
               = [Ran (next_loop w), Closed (next_loop w)]
             \<and> events (with_loop_run r generator t w) r = events w r))
   \<and> (case ensure_event_loop tc wc of
         (Inl x, w1) \<Rightarrow>
           new_actions wc (snd (cancellable_wrapped cw args kw tc wc)) = [Cleared (cw_started cw)]
           \<and> fst (cancellable_wrapped cw args kw tc wc) = Raises x
           \<and> \<not> flag (events (snd (cancellable_wrapped cw args kw tc wc)) (cw_started cw))
       | (Inr l, w1) \<Rightarrow>
           new_actions wc (snd (cancellable_wrapped cw args kw tc wc))
             = [Cleared (cw_started cw), Attached (cw_started cw) l, Flag_set (cw_started cw)]
                 @ (case cw_f cw args kw of
                      Inl x \<Rightarrow> []
                    | Inr coro \<Rightarrow>
                        if is_closed (loops w1 l) \<or> is_running (loops w1 l) then []
                        else [Ran l])
           \<and> precedes (Attached (cw_started cw) l) (Flag_set (cw_started cw))
                (new_actions wc (snd (cancellable_wrapped cw args kw tc wc)))
           \<and> precedes (Flag_set (cw_started cw)) (Ran l)
                (new_actions wc (snd (cancellable_wrapped cw args kw tc wc)))
           \<and> flag (events (snd (cancellable_wrapped cw args kw tc wc)) (cw_started cw))
           \<and> loop_attr (events (snd (cancellable_wrapped cw args kw tc wc)) (cw_started cw))
               = Some l)"
proof -
  have run: "case generator of
         Returns v \<Rightarrow>
           new_actions w (with_loop_run r generator t w)
             = [Ran (next_loop w), Wrote_result r v, Wrote_error r None,
                Closed (next_loop w), Flag_set r]
           \<and> precedes (Wrote_result r v) (Flag_set r)
                (new_actions w (with_loop_run r generator t w))
           \<and> precedes (Wrote_error r None) (Flag_set r)
                (new_actions w (with_loop_run r generator t w))
           \<and> flag (events (with_loop_run r generator t w) r)
           \<and> result_attr (events (with_loop_run r generator t w) r) = Some v
           \<and> error_attr (events (with_loop_run r generator t w) r) = Some None
           \<and> with_loop_join r (with_loop_run r generator t w) = Returned v
       | Raises e \<Rightarrow>
           if isinstance_Exception e then
             new_actions w (with_loop_run r generator t w)
               = [Ran (next_loop w), Wrote_result r PNone, Wrote_error r (Some e),
                  Closed (next_loop w), Flag_set r]
             \<and> precedes (Wrote_result r PNone) (Flag_set r)
                  (new_actions w (with_loop_run r generator t w))
             \<and> precedes (Wrote_error r (Some e)) (Flag_set r)
                  (new_actions w (with_loop_run r generator t w))
             \<and> flag (events (with_loop_run r generator t w) r)
             \<and> result_attr (events (with_loop_run r generator t w) r) = Some PNone
             \<and> error_attr (events (with_loop_run r generator t w) r) = Some (Some e)
             \<and> with_loop_join r (with_loop_run r generator t w) = Raised e
           else
             new_actions w (with_loop_run r generator t w)
               = [Ran (next_loop w), Closed (next_loop w)]
             \<and> events (with_loop_run r generator t w) r = events w r"
    if fresh: "bound w t = None" "policy_fault w t = None"
    using with_loop_run_fresh [OF fresh, of r generator]
    by (cases generator) (simp_all split: if_splits)
  obtain res w1 where e: "ensure_event_loop tc wc = (res, w1)"
    by (cases "ensure_event_loop tc wc")
  note eff = cancellable_wrapped_effect(1) [OF e, of cw args kw]
  note p = ensure_event_loop_preserves(1,2) [OF e]
  have wrapped: "case ensure_event_loop tc wc of
         (Inl x, w1) \<Rightarrow>
           new_actions wc (snd (cancellable_wrapped cw args kw tc wc)) = [Cleared (cw_started cw)]
           \<and> fst (cancellable_wrapped cw args kw tc wc) = Raises x
           \<and> \<not> flag (events (snd (cancellable_wrapped cw args kw tc wc)) (cw_started cw))
       | (Inr l, w1) \<Rightarrow>
           new_actions wc (snd (cancellable_wrapped cw args kw tc wc))
             = [Cleared (cw_started cw), Attached (cw_started cw) l, Flag_set (cw_started cw)]
                 @ (case cw_f cw args kw of
                      Inl x \<Rightarrow> []
                    | Inr coro \<Rightarrow>
                        if is_closed (loops w1 l) \<or> is_running (loops w1 l) then []
                        else [Ran l])
           \<and> precedes (Attached (cw_started cw) l) (Flag_set (cw_started cw))
                (new_actions wc (snd (cancellable_wrapped cw args kw tc wc)))
           \<and> precedes (Flag_set (cw_started cw)) (Ran l)
                (new_actions wc (snd (cancellable_wrapped cw args kw tc wc)))
           \<and> flag (events (snd (cancellable_wrapped cw args kw tc wc)) (cw_started cw))
           \<and> loop_attr (events (snd (cancellable_wrapped cw args kw tc wc)) (cw_started cw))
               = Some l"
    using eff p
    by (cases res) (auto simp: e new_actions_def event_clear_def split: sum.splits)
  from with_loop_run_order [where t = tr and w = wr and r = rr and generator = coro]
    run wrapped
  show ?thesis by blast
qed

theorem signal_payload_before_flag_witness:
  "new_actions (inside_coroutine_world ''Linux'' SelectorEventLoop)
      (with_loop_run 0 (Returns (PStr ''hello'')) 1
         (inside_coroutine_world ''Linux'' SelectorEventLoop))
     = [Ran 1, Wrote_result 0 (PStr ''hello''), Wrote_error 0 None, Closed 1, Flag_set 0]
   \<and> result_attr (events (with_loop_run 0 (Returns (PStr ''hello'')) 1
         (inside_coroutine_world ''Linux'' SelectorEventLoop)) 0) = Some (PStr ''hello'')
   \<and> with_loop_join 0 (with_loop_run 0 (Returns (PStr ''hello'')) 1
         (inside_coroutine_world ''Linux'' SelectorEventLoop)) = Returned (PStr ''hello'')
   \<and> new_actions idle_world (snd (cancellable_wrapped idle_wrapper [PInt 1] [] 0 idle_world))
     = [Cleared 0, Attached 0 0, Flag_set 0, Ran 0]"
proof -
  let ?w = "inside_coroutine_world ''Linux'' SelectorEventLoop"
  have fresh: "bound ?w (Suc 0) = None" "policy_fault ?w (Suc 0) = None" "next_loop ?w = 1"
    by (simp_all add: inside_coroutine_world_def set_running_def main_loop_world_eq
        fresh_world_def)
  have idle: "ensure_event_loop 0 idle_world
      = (Inr 0, idle_world\<lparr>loops := (loops idle_world)(0 :=
              \<lparr>kind = SelectorEventLoop, is_running = False, is_closed = False, ready = []\<rparr>),
          next_loop := Suc 0, bound := (bound idle_world)(0 := Some 0)\<rparr>)"
    "cw_started idle_wrapper = 0"
    "cw_f idle_wrapper [PInt 1] [] = Inr (Returns (PInt 1))"
    by (simp_all add: idle_world_def idle_wrapper_def cancellable_def new_event_def
        ensure_event_loop_unbound fresh_world_def)
  from signal_payload_before_flag
         [where w = ?w and t = 1 and generator = "Returns (PStr ''hello'')" and r = 0
            and tc = 0 and wc = idle_world and cw = idle_wrapper and args = "[PInt 1]"
            and kw = "[]"]
  show ?thesis
    by (simp add: fresh idle)
qed

section \<open>The lifetime of the signals\<close>

text \<open>
  Claim C9, as stated, fails: two calls of the same \<open>cancellable\<close> wrapper work on
  the same \<^verbatim>\<open>started\<close> event (the event \<open>0\<close>), two calls of the same \<open>sync\<close>
  wrapper on the same \<^verbatim>\<open>done\<close> event, and the second of these finds the flag still
  set by the first.
\<close>

theorem signals_shared_between_invocations:
  "touched (new_actions idle_world started_world) = [0, 0, 0]
   \<and> touched (new_actions started_world
        (snd (cancellable_wrapped idle_wrapper [PInt 2] [] 0 started_world))) = [0, 0, 0]
   \<and> touched (new_actions bridge_world (snd (sync_synced bridge_wrapper [PInt 1] bridge_world)))
       = [0, 0, 0]
   \<and> flag (events (snd (sync_synced bridge_wrapper [PInt 1] bridge_world)) 0)
   \<and> touched (new_actions (snd (sync_synced bridge_wrapper [PInt 1] bridge_world))
        (snd (sync_synced bridge_wrapper [PInt 2]
               (snd (sync_synced bridge_wrapper [PInt 1] bridge_world))))) = [0, 0]"
  by (simp add: started_world_def idle_world_def idle_wrapper_def cancellable_def
      cancellable_wrapped_def ensure_event_loop_unbound ensure_event_loop_bound
      bridge_wrapper_def bridge_world_def sync_def set_running_def sync_synced_def
      sync_wrapped_def event_wait_def
      loop_ops event_ops fresh_world_def Let_def new_actions_def touched_simps)

text \<open>
  Claim C9, amended. A call of the \<open>with_loop\<close> wrapper that uses a background
  thread creates its own event first, and works on no other event. The \<^verbatim>\<open>started\<close>
  event of \<open>cancellable\<close> and the \<^verbatim>\<open>done\<close> event of \<open>sync\<close> are created once,
  when the function is wrapped. Every call of such a wrapper, in any state and any
  thread, creates no event and works on that one only, and a call of a
  \<open>cancellable\<close> wrapper clears it first.
\<close>

theorem signal_created_per_wrapper_or_isolated_call:
  "(ensure_event_loop t w = (Inr l, w1) \<and> thread_required l w1 = Inr True \<longrightarrow>
      (\<exists>rest. new_actions w (snd (with_loop_wrapped func args kw t w))
                 = Created (next_ref w) # rest
             \<and> set (touched rest) \<subseteq> {next_ref w})
      \<and> next_ref (snd (with_loop_wrapped func args kw t w)) = Suc (next_ref w))
   \<and> cw_started (fst (cancellable g wg)) = next_ref wg
   \<and> new_actions wg (snd (cancellable g wg)) = [Created (next_ref wg)]
   \<and> next_ref (snd (cancellable g wg)) = Suc (next_ref wg)
   \<and> hd (new_actions wc (snd (cancellable_wrapped cw cargs ckw tc wc))) = Cleared (cw_started cw)
   \<and> set (touched (new_actions wc (snd (cancellable_wrapped cw cargs ckw tc wc))))
       = {cw_started cw}
   \<and> (\<forall>r. Created r \<notin> set (new_actions wc (snd (cancellable_wrapped cw cargs ckw tc wc))))
   \<and> next_ref (snd (cancellable_wrapped cw cargs ckw tc wc)) = next_ref wc
   \<and> (case sync async_wrapper h th wh of
         (Inl e, w') \<Rightarrow> new_actions wh w' = [] \<and> next_ref w' = next_ref wh
       | (Inr sw', w') \<Rightarrow>
           sw_f sw' = h \<and> sw_done sw' = next_ref wh
           \<and> new_actions wh w' = [Created (next_ref wh)] \<and> next_ref w' = Suc (next_ref wh))
   \<and> set (touched (new_actions ws (snd (sync_synced sw sargs ws)))) \<subseteq> {sw_done sw}
   \<and> (\<forall>r. Created r \<notin> set (new_actions ws (snd (sync_synced sw sargs ws))))
   \<and> next_ref (snd (sync_synced sw sargs ws)) = next_ref ws"
proof -
  have isolated: "(\<exists>rest. new_actions w (snd (with_loop_wrapped func args kw t w))
                 = Created (next_ref w) # rest
             \<and> set (touched rest) \<subseteq> {next_ref w})
      \<and> next_ref (snd (with_loop_wrapped func args kw t w)) = Suc (next_ref w)"
    if "ensure_event_loop t w = (Inr l, w1)" "thread_required l w1 = Inr True"
    using with_loop_isolated_trace [OF that, where func = func and args = args and kw = kw] by blast
  from isolated
    cancellable_creates_started [where f = g and w = wg]
    cancellable_wrapped_touches [where w = wc and cw = cw and args = cargs and kw = ckw and t = tc]
    cancellable_wrapped_effect(2)
      [OF surjective_pairing, where cw = cw and args = cargs and kw = ckw and t = tc and w = wc]
    sync_creates_done [where async_wrapper = async_wrapper and f = h and t = th and w = wh]
    sync_synced_touches [where w = ws and sw = sw and args = sargs]
  show ?thesis by blast
qed

theorem signal_created_per_wrapper_or_isolated_call_witness:
  "hd (new_actions (inside_coroutine_world ''Linux'' SelectorEventLoop)
         (snd (with_loop_wrapped identity [PStr ''hello''] [] 0
                (inside_coroutine_world ''Linux'' SelectorEventLoop)))) = Created 0
   \<and> next_ref (snd (with_loop_wrapped identity [PStr ''hello''] [] 0
                (inside_coroutine_world ''Linux'' SelectorEventLoop))) = 1
   \<and> hd (new_actions started_world
            (snd (cancellable_wrapped idle_wrapper [PInt 2] [] 0 started_world))) = Cleared 0
   \<and> set (touched (new_actions started_world
            (snd (cancellable_wrapped idle_wrapper [PInt 2] [] 0 started_world)))) = {0}
   \<and> next_ref (snd (cancellable_wrapped idle_wrapper [PInt 2] [] 0 started_world))
       = next_ref started_world
   \<and> set (touched (new_actions bridge_world
            (snd (sync_synced bridge_wrapper [PInt 1] bridge_world)))) \<subseteq> {0}
   \<and> next_ref (snd (sync_synced bridge_wrapper [PInt 1] bridge_world)) = next_ref bridge_world"
proof -
  let ?w = "inside_coroutine_world ''Linux'' SelectorEventLoop"
  have b: "bound ?w 0 = Some 0" "is_running (loops ?w 0)"
    by (simp_all add: inside_coroutine_world_def set_running_def main_loop_world_eq)
  have e: "ensure_event_loop 0 ?w = (Inr 0, ?w)"
    using ensure_event_loop_bound [OF b(1)] b(2) by simp
  have r: "thread_required 0 ?w = Inr True"
    by (simp add: thread_required_def b)
  have n: "next_ref ?w = 0"
    by (simp add: inside_coroutine_world_def set_running_def main_loop_world_eq fresh_world_def)
  have c: "cw_started idle_wrapper = 0" "sw_done bridge_wrapper = 0"
    by (simp_all add: idle_wrapper_def cancellable_def new_event_def fresh_world_def
        bridge_wrapper_def)
  from signal_created_per_wrapper_or_isolated_call
         [where t = 0 and w = ?w and l = 0 and ?w1.0 = ?w and func = identity
            and args = "[PStr ''hello'']" and kw = "[]"
            and g = identity and wg = ?w
            and cw = idle_wrapper and cargs = "[PInt 2]" and ckw = "[]" and tc = 0
            and wc = started_world
            and async_wrapper = recording_executor and h = identity and th = 0 and wh = ?w
            and sw = bridge_wrapper and sargs = "[PInt 1]" and ws = bridge_world]
  show ?thesis
    by (auto simp: e r n c)
qed

section \<open>Bridging an executor with \<^verbatim>\<open>sync\<close>\<close>

text \<open>
  Claim C2. The wrapper made by \<open>sync\<close> never calls the executor it was given: with
  an executor that leaves a mark in the trace when it is called, a call of the wrapper
  returns the value of the function and leaves no mark.
\<close>

theorem sync_never_calls_executor:
  "fst (sync recording_executor identity 0 (fresh_world ''Linux'' SelectorEventLoop))
     = Inr bridge_wrapper
   \<and> fst (sync_synced bridge_wrapper [PInt 1] bridge_world) = Returned (PInt 1)
   \<and> trace (snd (sync_synced bridge_wrapper [PInt 1] bridge_world))
       = [Created 0, Wrote_result 0 (PInt 1), Scheduled 0 (Event_set 0), Flag_set 0]
   \<and> Executor_called \<notin> set (trace (snd (sync_synced bridge_wrapper [PInt 1] bridge_world)))"
  by (simp add: bridge_wrapper_def bridge_world_def sync_def ensure_event_loop_unbound
      loop_ops event_ops set_running_def fresh_world_def sync_synced_def sync_wrapped_def
      event_wait_def)

end
